theory Spec2Isabelle
  imports Complex_Main "HOL-Library.Sublist"
begin

section \<open>JavaScript strings and character classes\<close>

text \<open>
  A JavaScript string is a sequence of UTF-16 code units. The regular expressions of
  \<^verbatim>\<open>CodeAnalysis.tsx\<close> carry no \<^verbatim>\<open>u\<close> flag, so every pattern character and every
  class member is compared with one code unit. A code unit is modelled as a natural number
  (a real one is below 65536; no arithmetic is done on them), and ASCII literals are written
  through \<open>js\<close>.
\<close>

type_synonym cu = nat
type_synonym jsstring = "cu list"

definition js :: "string \<Rightarrow> jsstring" where
  "js s = map of_char s"

text \<open>LineTerminator: LF, CR, U+2028, U+2029.\<close>

definition is_lineterm :: "cu \<Rightarrow> bool" where
  "is_lineterm c = (c = 10 \<or> c = 13 \<or> c = 8232 \<or> c = 8233)"

text \<open>
  The class \<^verbatim>\<open>\s\<close> and the characters removed by \<^verbatim>\<open>String.prototype.trim\<close>:
  WhiteSpace (TAB, VT, FF, U+FEFF and the category Zs) together with LineTerminator.
\<close>

definition is_space :: "cu \<Rightarrow> bool" where
  "is_space c = (c = 9 \<or> c = 10 \<or> c = 11 \<or> c = 12 \<or> c = 13 \<or> c = 32 \<or> c = 160 \<or> c = 5760
      \<or> (8192 \<le> c \<and> c \<le> 8202) \<or> c = 8232 \<or> c = 8233 \<or> c = 8239 \<or> c = 8287
      \<or> c = 12288 \<or> c = 65279)"

text \<open>The class \<^verbatim>\<open>\w\<close>: ASCII letters, digits and the underscore.\<close>

definition is_word :: "cu \<Rightarrow> bool" where
  "is_word c = ((97 \<le> c \<and> c \<le> 122) \<or> (65 \<le> c \<and> c \<le> 90) \<or> (48 \<le> c \<and> c \<le> 57) \<or> c = 95)"

definition trim :: "jsstring \<Rightarrow> jsstring" where
  "trim s = rev (dropWhile is_space (rev (dropWhile is_space s)))"

text \<open>\<^verbatim>\<open>s.split('\n')\<close>: the pieces between line feeds; the empty string gives one empty piece.\<close>

fun split_nl :: "jsstring \<Rightarrow> jsstring list" where
  "split_nl [] = [[]]"
| "split_nl (c # cs) =
     (if c = 10 then [] # split_nl cs
      else (case split_nl cs of [] \<Rightarrow> [[c]] | l # ls \<Rightarrow> (c # l) # ls))"

text \<open>\<^verbatim>\<open>s.includes(w)\<close>, used to state that a text contains a token.\<close>

fun js_includes :: "jsstring \<Rightarrow> jsstring \<Rightarrow> bool" where
  "js_includes [] w = (w = [])"
| "js_includes (x # xs) w = (if prefix w (x # xs) then True else js_includes xs w)"

section \<open>Regular expressions\<close>

text \<open>
  The syntax of the patterns that occur in the source: literal text, character classes
  with ranges and the escapes \<^verbatim>\<open>\s\<close> and \<^verbatim>\<open>\w\<close>, negated classes, the dot, the
  assertions \<^verbatim>\<open>^\<close>, \<^verbatim>\<open>$\<close>, \<^verbatim>\<open>\b\<close> and a negative look-behind over one class,
  sequence, alternation and the greedy quantifiers \<^verbatim>\<open>*\<close>, \<^verbatim>\<open>+\<close>, \<^verbatim>\<open>?\<close>.
\<close>

datatype citem = Ch cu | Rng cu cu | ClsS | ClsW

datatype rx = Lit jsstring | Cls "citem list" | NCls "citem list" | Dot
  | Bol | Eol | WordB | NotBehind "citem list"
  | Seq rx rx | Alt rx rx | Star rx | Plus rx | Opt rx

record regexp =
  source :: rx
  global :: bool
  ignoreCase :: bool
  multiline :: bool

definition regex :: "rx \<Rightarrow> string \<Rightarrow> regexp" where
  "regex r flags = \<lparr>source = r, global = (CHR ''g'' \<in> set flags),
     ignoreCase = (CHR ''i'' \<in> set flags), multiline = (CHR ''m'' \<in> set flags)\<rparr>"

fun seqs :: "rx list \<Rightarrow> rx" where
  "seqs [] = Lit []"
| "seqs [r] = r"
| "seqs (r # rs) = Seq r (seqs rs)"

fun alts :: "rx list \<Rightarrow> rx" where
  "alts [] = Cls []"
| "alts [r] = r"
| "alts (r # rs) = Alt r (alts rs)"

definition lit :: "string \<Rightarrow> rx" where
  "lit s = Lit (js s)"

definition sp :: rx where
  "sp = Cls [ClsS]"

definition wd :: rx where
  "wd = Cls [ClsW]"

fun item_has :: "citem \<Rightarrow> cu \<Rightarrow> bool" where
  "item_has (Ch a) c = (c = a)"
| "item_has (Rng lo hi) c = (lo \<le> c \<and> c \<le> hi)"
| "item_has ClsS c = is_space c"
| "item_has ClsW c = is_word c"

text \<open>
  Case-insensitive matching without the \<^verbatim>\<open>u\<close> flag compares canonical (upper-case)
  forms, and a code unit outside ASCII never canonicalises into ASCII. Every pattern
  character of the source is ASCII, so only the ASCII letters have a second form.
\<close>

definition canon :: "cu \<Rightarrow> cu" where
  "canon c = (if 97 \<le> c \<and> c \<le> 122 then c - 32 else c)"

definition eq_cu :: "bool \<Rightarrow> cu \<Rightarrow> cu \<Rightarrow> bool" where
  "eq_cu ic a c = (if ic then canon a = canon c else a = c)"

definition variants :: "cu \<Rightarrow> cu list" where
  "variants c = (if 65 \<le> c \<and> c \<le> 90 then [c, c + 32]
                 else if 97 \<le> c \<and> c \<le> 122 then [c, c - 32] else [c])"

definition cls_match :: "bool \<Rightarrow> citem list \<Rightarrow> cu \<Rightarrow> bool" where
  "cls_match ic items c =
     list_ex (\<lambda>v. list_ex (\<lambda>it. item_has it v) items) (if ic then variants c else [c])"

text \<open>
  A position in the input is the code unit before it (none at the start) and the rest of
  the input. \<open>ends r st\<close> lists the positions where a match of \<open>r\<close> that starts at \<open>st\<close>
  can end, in the order in which the backtracking matcher of the language tries them
  (left alternative first, more repetitions first). The patterns have no back-references,
  so a match exists exactly when this list is not empty, and the first match found is its
  head. A repetition only continues after an iteration that consumed input, as the
  language's empty check prescribes, so it runs at most once per remaining code unit;
  \<open>star_iter\<close> takes that bound as its second argument.
\<close>

type_synonym pos = "cu option \<times> jsstring"

fun lit_ends :: "bool \<Rightarrow> jsstring \<Rightarrow> pos \<Rightarrow> pos list" where
  "lit_ends ic [] st = [st]"
| "lit_ends ic (a # w) (p, []) = []"
| "lit_ends ic (a # w) (p, x # xs) = (if eq_cu ic a x then lit_ends ic w (Some x, xs) else [])"

fun star_iter :: "(pos \<Rightarrow> pos list) \<Rightarrow> nat \<Rightarrow> pos \<Rightarrow> pos list" where
  "star_iter f 0 st = [st]"
| "star_iter f (Suc n) st =
     concat (map (star_iter f n) (filter (\<lambda>st'. length (snd st') < length (snd st)) (f st))) @ [st]"

primrec ends :: "bool \<Rightarrow> bool \<Rightarrow> rx \<Rightarrow> pos \<Rightarrow> pos list" where
  "ends ic ml (Lit w) st = lit_ends ic w st"
| "ends ic ml (Cls items) st = (case snd st of [] \<Rightarrow> []
      | x # xs \<Rightarrow> if cls_match ic items x then [(Some x, xs)] else [])"
| "ends ic ml (NCls items) st = (case snd st of [] \<Rightarrow> []
      | x # xs \<Rightarrow> if cls_match ic items x then [] else [(Some x, xs)])"
| "ends ic ml Dot st = (case snd st of [] \<Rightarrow> []
      | x # xs \<Rightarrow> if is_lineterm x then [] else [(Some x, xs)])"
| "ends ic ml Bol st = (case fst st of None \<Rightarrow> [st]
      | Some c \<Rightarrow> if ml \<and> is_lineterm c then [st] else [])"
| "ends ic ml Eol st = (case snd st of [] \<Rightarrow> [st]
      | x # xs \<Rightarrow> if ml \<and> is_lineterm x then [st] else [])"
| "ends ic ml WordB st =
     (if (case fst st of None \<Rightarrow> False | Some c \<Rightarrow> is_word c)
         \<noteq> (case snd st of [] \<Rightarrow> False | x # xs \<Rightarrow> is_word x) then [st] else [])"
| "ends ic ml (NotBehind items) st = (case fst st of None \<Rightarrow> [st]
      | Some c \<Rightarrow> if cls_match ic items c then [] else [st])"
| "ends ic ml (Seq a b) st = concat (map (ends ic ml b) (ends ic ml a st))"
| "ends ic ml (Alt a b) st = ends ic ml a st @ ends ic ml b st"
| "ends ic ml (Star a) st = star_iter (ends ic ml a) (length (snd st)) st"
| "ends ic ml (Plus a) st =
     concat (map (\<lambda>st'. star_iter (ends ic ml a) (length (snd st')) st') (ends ic ml a st))"
| "ends ic ml (Opt a) st = ends ic ml a st @ [st]"

text \<open>
  The search for the leftmost match: the start position is moved right until a match
  exists. The result is the input from the start of the match and the position of its end.
\<close>

fun find_match :: "bool \<Rightarrow> bool \<Rightarrow> rx \<Rightarrow> cu option \<Rightarrow> jsstring \<Rightarrow> (jsstring \<times> pos) option" where
  "find_match ic ml r p [] =
     (case ends ic ml r (p, []) of [] \<Rightarrow> None | e # es \<Rightarrow> Some ([], e))"
| "find_match ic ml r p (x # xs) =
     (case ends ic ml r (p, x # xs) of [] \<Rightarrow> find_match ic ml r (Some x) xs
      | e # es \<Rightarrow> Some (x # xs, e))"

text \<open>\<^verbatim>\<open>re.test(s)\<close> for a regular expression without the \<^verbatim>\<open>g\<close> flag.\<close>

definition test :: "regexp \<Rightarrow> jsstring \<Rightarrow> bool" where
  "test re s = (find_match (ignoreCase re) (multiline re) (source re) None s \<noteq> None)"

section \<open>The pattern registry\<close>

record LanguageInfo =
  name :: jsstring
  monacoId :: jsstring
  icon :: jsstring
  color :: jsstring

record pattern_rule =
  pattern :: regexp
  lang :: LanguageInfo

definition java_rx :: rx where
  "java_rx = alts [
     seqs [lit ''public'', Plus sp, alts [lit ''class'', lit ''static'', lit ''void'']],
     seqs [lit ''private'', Plus sp, alts [lit ''class'', lit ''static'', lit ''void'']],
     lit ''System.out.print'',
     seqs [lit ''class'', Plus sp, Plus wd, Star sp,
           Opt (alts [lit ''extends'', lit ''implements'']), Star sp, lit ''{''],
     seqs [lit ''void'', Plus sp, lit ''main'', Star sp, lit ''('', Star sp, lit ''String'']]"

definition cpp_rx :: rx where
  "cpp_rx = alts [
     seqs [lit ''#include'', Star sp, lit ''<'',
           alts [lit ''iostream'', lit ''vector'', lit ''string'', lit ''algorithm'', lit ''map'',
                 lit ''set'', lit ''queue'', lit ''stack''], lit ''>''],
     lit ''std::'',
     seqs [lit ''cout'', Star sp, lit ''<<''],
     seqs [lit ''cin'', Star sp, lit ''>>''],
     seqs [lit ''using'', Plus sp, lit ''namespace'', Plus sp, lit ''std''],
     lit ''nullptr'',
     seqs [lit ''::'', Plus wd, lit ''(''],
     seqs [lit ''template'', Star sp, lit ''<'']]"

definition c_rx :: rx where
  "c_rx = alts [
     seqs [lit ''#include'', Star sp, lit ''<'',
           alts [lit ''stdio'', lit ''stdlib'', lit ''string'', lit ''math'', lit ''ctype'',
                 lit ''time''], lit ''.h>''],
     seqs [lit ''printf'', Star sp, lit ''(''],
     seqs [lit ''scanf'', Star sp, lit ''(''],
     seqs [lit ''int'', Plus sp, lit ''main'', Star sp, lit ''('', Star sp, Opt (lit ''void''),
           Star sp, lit '')''],
     seqs [lit ''malloc'', Star sp, lit ''(''],
     seqs [lit ''free'', Star sp, lit ''('']]"

definition typescript_rx :: rx where
  "typescript_rx = alts [
     seqs [lit '':'', Star sp,
           alts [lit ''string'', lit ''number'', lit ''boolean'', lit ''void'', lit ''any'',
                 lit ''never''],
           Star sp, Cls [Ch 59, Ch 44, Ch 41, Ch 61, Ch 123]],
     seqs [lit ''interface'', Plus sp, Plus wd, Star sp, lit ''{''],
     seqs [lit ''type'', Plus sp, Plus wd, Star sp, lit ''=''],
     seqs [lit ''<'', Plus wd, lit ''>'', Star sp, lit ''(''],
     seqs [lit ''React.'', alts [lit ''FC'', lit ''Component'']],
     seqs [lit '':'', Star sp, Plus wd, lit ''[]'']]"

definition go_rx :: rx where
  "go_rx = alts [
     seqs [Bol, lit ''package'', Plus sp, Plus wd],
     seqs [lit ''func'', Plus sp, Plus wd, Star sp, lit ''('', Star (NCls [Ch 41]), lit '')'',
           Star sp, lit ''{''],
     seqs [lit ''func'', Plus sp, lit ''('', Plus wd, Plus sp, Opt (lit ''*''), Plus wd, lit '')''],
     seqs [lit ''fmt.'', alts [lit ''Print'', lit ''Scan'']],
     seqs [lit '':='', Star sp],
     seqs [lit ''import'', Plus sp, lit ''('']]"

definition rust_rx :: rx where
  "rust_rx = alts [
     seqs [lit ''fn'', Plus sp, Plus wd, Star sp, lit ''('', Star (NCls [Ch 41]), lit '')'',
           Star sp, Opt (seqs [lit ''->'', Star sp, Plus wd]), Star sp, lit ''{''],
     seqs [lit ''let'', Plus sp, lit ''mut'', Plus sp],
     seqs [lit ''println!'', Star sp, lit ''(''],
     seqs [lit ''impl'', Plus sp, Plus wd],
     seqs [lit ''pub'', Plus sp, lit ''fn''],
     seqs [lit ''use'', Plus sp, lit ''std::''],
     seqs [lit ''match'', Plus sp, Plus wd, Star sp, lit ''{'']]"

definition python_rx :: rx where
  "python_rx = alts [
     seqs [Bol, Star sp, lit ''def'', Plus sp, Plus wd, Star sp, lit ''(''],
     seqs [Bol, Star sp, lit ''class'', Plus sp, Plus wd, Star sp, lit '':''],
     seqs [Bol, Star sp, lit ''import'', Plus sp, Plus wd],
     seqs [Bol, Star sp, lit ''from'', Plus sp, Plus wd, Plus sp, lit ''import''],
     seqs [NotBehind [Ch 46, ClsW], lit ''print'', Star sp, lit ''(''],
     seqs [lit ''if'', Plus sp, lit ''__name__'', Star sp, lit ''=='', Star sp, Cls [Ch 34, Ch 39],
           lit ''__main__'', Cls [Ch 34, Ch 39]],
     seqs [Bol, Star sp, lit ''elif'', Plus sp],
     seqs [lit '':'', Star sp, Eol]]"

definition javascript_rx :: rx where
  "javascript_rx = alts [
     seqs [WordB, lit ''function'', Plus sp, Plus wd, Star sp, lit ''(''],
     seqs [WordB, lit ''const'', Plus sp, Plus wd, Star sp, lit ''=''],
     seqs [WordB, lit ''let'', Plus sp, Plus wd, Star sp, lit ''=''],
     seqs [lit ''console.'', alts [lit ''log'', lit ''error'', lit ''warn''], Star sp, lit ''(''],
     seqs [lit ''=>'', Star sp, Cls [Ch 123, Ch 40]],
     lit ''module.exports'',
     seqs [lit ''require'', Star sp, lit ''('', Cls [Ch 39, Ch 34]],
     lit ''document.'',
     lit ''window.'']"

definition ruby_rx :: rx where
  "ruby_rx = alts [
     seqs [Bol, Star sp, lit ''def'', Plus sp, Plus wd],
     seqs [Bol, Star sp, lit ''end'', Star sp, Eol],
     seqs [lit ''puts'', Plus sp],
     seqs [lit ''require'', Plus sp, Cls [Ch 39, Ch 34]],
     seqs [lit ''class'', Plus sp, Plus wd, Star sp, lit ''<''],
     seqs [lit ''attr_'', alts [lit ''accessor'', lit ''reader'', lit ''writer'']],
     seqs [lit ''.each'', Plus sp, lit ''do'']]"

definition php_rx :: rx where
  "php_rx = alts [
     lit ''<?php'',
     seqs [lit ''$'', Plus wd, Star sp, lit ''=''],
     seqs [lit ''echo'', Plus sp, Cls [Ch 39, Ch 34, Ch 36]],
     seqs [lit ''function'', Plus sp, Plus wd, Star sp, lit ''('', Star Dot, lit '')'', Star sp,
           lit ''{''],
     lit ''$this->'',
     seqs [lit ''namespace'', Plus sp, Plus wd, lit '';'']]"

text \<open>
  The registry, in the order of the source. The glyphs of the \<open>icon\<close> fields are given by
  their UTF-16 code units.
\<close>

definition LANGUAGE_PATTERNS :: "pattern_rule list" where
  "LANGUAGE_PATTERNS = [
     \<lparr>pattern = regex java_rx [],
      lang = \<lparr>name = js ''Java'', monacoId = js ''java'', icon = [9749], color = js ''#B07219''\<rparr>\<rparr>,
     \<lparr>pattern = regex cpp_rx [],
      lang = \<lparr>name = js ''C++'', monacoId = js ''cpp'', icon = [9889], color = js ''#F34B7D''\<rparr>\<rparr>,
     \<lparr>pattern = regex c_rx [],
      lang = \<lparr>name = js ''C'', monacoId = js ''c'', icon = [55357, 56615],
              color = js ''#555555''\<rparr>\<rparr>,
     \<lparr>pattern = regex typescript_rx [],
      lang = \<lparr>name = js ''TypeScript'', monacoId = js ''typescript'', icon = [55357, 56536],
              color = js ''#3178C6''\<rparr>\<rparr>,
     \<lparr>pattern = regex go_rx ''m'',
      lang = \<lparr>name = js ''Go'', monacoId = js ''go'', icon = [55357, 56377],
              color = js ''#00ADD8''\<rparr>\<rparr>,
     \<lparr>pattern = regex rust_rx [],
      lang = \<lparr>name = js ''Rust'', monacoId = js ''rust'', icon = [55358, 56704],
              color = js ''#DEA584''\<rparr>\<rparr>,
     \<lparr>pattern = regex python_rx ''m'',
      lang = \<lparr>name = js ''Python'', monacoId = js ''python'', icon = [55357, 56333],
              color = js ''#3572A5''\<rparr>\<rparr>,
     \<lparr>pattern = regex javascript_rx [],
      lang = \<lparr>name = js ''JavaScript'', monacoId = js ''javascript'', icon = [55357, 56540],
              color = js ''#F7DF1E''\<rparr>\<rparr>,
     \<lparr>pattern = regex ruby_rx ''m'',
      lang = \<lparr>name = js ''Ruby'', monacoId = js ''ruby'', icon = [55357, 56462],
              color = js ''#CC342D''\<rparr>\<rparr>,
     \<lparr>pattern = regex php_rx [],
      lang = \<lparr>name = js ''PHP'', monacoId = js ''php'', icon = [55357, 56344],
              color = js ''#4F5D95''\<rparr>\<rparr>]"

definition PlainText :: LanguageInfo where
  "PlainText = \<lparr>name = js ''Plain Text'', monacoId = js ''plaintext'', icon = [55357, 56516],
     color = js ''#6B7280''\<rparr>"

section \<open>The prose scorer\<close>

text \<open>The regular expressions of \<^verbatim>\<open>isPlainText\<close>, in the order of the source.\<close>

definition short_decl_re :: regexp where
  "short_decl_re = regex (seqs [Bol,
     alts [lit ''def'', lit ''function'', lit ''class'', lit ''public'', lit ''private''],
     Plus sp, Plus wd]) []"

definition short_term_re :: regexp where
  "short_term_re = regex (seqs [Cls [Ch 123, Ch 125, Ch 59], Star sp, Eol]) []"

definition sentence_re :: regexp where
  "sentence_re = regex (seqs [Bol, Cls [Rng 65 90],
     Plus (Cls [Rng 97 122, Rng 65 90, ClsS, Ch 44, Ch 39, Ch 34]),
     Cls [Ch 46, Ch 33, Ch 63], Eol]) []"

definition structure_re :: regexp where
  "structure_re = regex (Cls [Ch 61, Ch 91, Ch 93, Ch 123, Ch 125, Ch 40, Ch 41, Ch 59]) []"

definition phrase_re :: regexp where
  "phrase_re = regex (seqs [WordB,
     alts [lit ''your'', lit ''you're'', lit ''what's'', lit ''here's'', lit ''that's'',
           lit ''it's'', lit ''how to'', lit ''this is'', lit ''problem'', lit ''issue''],
     WordB]) ''i''"

definition bullet_re :: regexp where
  "bullet_re = regex (seqs [Bol, Cls [Ch 8226, Ch 45, Ch 42, Ch 9989, Ch 10060], Plus sp]) []"

definition allcaps_re :: regexp where
  "allcaps_re = regex (seqs [Bol, Cls [Rng 65 90], Plus (Cls [Rng 65 90, ClsS]), Eol]) []"

definition wordsonly_re :: regexp where
  "wordsonly_re = regex (seqs [Bol, Plus (Cls [Rng 97 122, Rng 65 90, ClsS]), Eol]) []"

definition keyword_re :: regexp where
  "keyword_re = regex (seqs [Bol,
     alts [lit ''if'', lit ''for'', lit ''while'', lit ''def'', lit ''class'', lit ''return'',
           lit ''import'', lit ''from''], sp]) []"

definition code_decl_re :: regexp where
  "code_decl_re = regex (seqs [Bol, Star sp,
     alts [lit ''def'', lit ''function'', lit ''class'', lit ''public'', lit ''private'',
           lit ''void'', lit ''int'', lit ''bool''],
     Plus sp, Plus wd]) []"

definition code_ctrl_re :: regexp where
  "code_ctrl_re = regex (seqs [Bol, Star sp,
     alts [lit ''if'', lit ''for'', lit ''while'', lit ''elif'', lit ''else'', lit ''switch'',
           lit ''match'', lit ''try'', lit ''catch'', lit ''finally'', lit ''with'', lit ''func'',
           lit ''fn''],
     WordB]) []"

definition code_import_re :: regexp where
  "code_import_re = regex (seqs [Bol, Star sp,
     alts [lit ''import'', seqs [lit ''from'', Plus sp, Plus wd, Plus sp, lit ''import''],
           lit ''#include'', lit ''require'', lit ''use'', lit ''package''],
     sp]) []"

definition code_term_re :: regexp where
  "code_term_re = regex (seqs [Cls [Ch 123, Ch 125, Ch 59, Ch 58], Star sp, Eol]) []"

definition equals_re :: regexp where
  "equals_re = regex (lit ''='') []"

definition assign_re :: regexp where
  "assign_re = regex (seqs [Cls [Rng 97 122, Ch 95], Star wd, Star sp,
     alts [lit ''='', lit ''+='', lit ''-='']]) ''i''"

definition structsym_re :: regexp where
  "structsym_re = regex (Cls [Ch 123, Ch 125, Ch 59]) ''g''"

text \<open>
  \<^verbatim>\<open>s.match(re)\<close> for a regular expression with the \<^verbatim>\<open>g\<close> flag: all matches from left
  to right, the search resuming at the end of the previous match (one code unit further
  after an empty match); \<^verbatim>\<open>null\<close>, here \<open>None\<close>, when there is no match at all.
  The last argument of \<open>match_all\<close> counts the code units that the previous match still
  covers.
\<close>

fun match_all :: "bool \<Rightarrow> bool \<Rightarrow> rx \<Rightarrow> cu option \<Rightarrow> jsstring \<Rightarrow> nat \<Rightarrow> jsstring list" where
  "match_all ic ml r p [] k =
     (if k > 0 then []
      else (case ends ic ml r (p, []) of [] \<Rightarrow> [] | e # es \<Rightarrow> [[]]))"
| "match_all ic ml r p (x # xs) k =
     (if k > 0 then match_all ic ml r (Some x) xs (k - 1)
      else (case ends ic ml r (p, x # xs) of
              [] \<Rightarrow> match_all ic ml r (Some x) xs 0
            | e # es \<Rightarrow>
                (let n = length (x # xs) - length (snd e)
                 in take n (x # xs) # match_all ic ml r (Some x) xs (n - 1))))"

definition js_match :: "jsstring \<Rightarrow> regexp \<Rightarrow> jsstring list option" where
  "js_match s re =
     (case match_all (ignoreCase re) (multiline re) (source re) None s 0 of
        [] \<Rightarrow> None | m # ms \<Rightarrow> Some (m # ms))"

text \<open>
  \<^verbatim>\<open>x?.length < n\<close>: the optional chain gives \<^verbatim>\<open>undefined\<close> for \<^verbatim>\<open>null\<close>, and
  \<^verbatim>\<open>undefined < n\<close> is false.
\<close>

definition length_lt :: "jsstring list option \<Rightarrow> nat \<Rightarrow> bool" where
  "length_lt ms n = (case map_option length ms of None \<Rightarrow> False | Some k \<Rightarrow> k < n)"

definition lines_of :: "jsstring \<Rightarrow> jsstring list" where
  "lines_of code = filter (\<lambda>l. trim l \<noteq> []) (split_nl (trim code))"

definition isProse :: "jsstring \<Rightarrow> bool" where
  "isProse trimmed =
     (test sentence_re trimmed
      \<or> (\<not> test structure_re trimmed \<and> test phrase_re trimmed)
      \<or> test bullet_re trimmed
      \<or> test allcaps_re trimmed
      \<or> (length trimmed < 30 \<and> test wordsonly_re trimmed \<and> \<not> test keyword_re trimmed))"

definition isCode :: "jsstring \<Rightarrow> bool" where
  "isCode trimmed =
     (test code_decl_re trimmed
      \<or> test code_ctrl_re trimmed
      \<or> test code_import_re trimmed
      \<or> test code_term_re trimmed
      \<or> (test equals_re trimmed \<and> test assign_re trimmed))"

text \<open>The loop over the lines, with the two counters as accumulators.\<close>

fun count_lines :: "jsstring list \<Rightarrow> nat \<times> nat \<Rightarrow> nat \<times> nat" where
  "count_lines [] (proseLines, codeLines) = (proseLines, codeLines)"
| "count_lines (line # rest) (proseLines, codeLines) =
     (let trimmed = trim line in
      if isProse trimmed \<and> \<not> isCode trimmed then count_lines rest (proseLines + 1, codeLines)
      else if isCode trimmed \<and> \<not> isProse trimmed then count_lines rest (proseLines, codeLines + 1)
      else count_lines rest (proseLines, codeLines))"

text \<open>
  The quotient \<^verbatim>\<open>proseLines / total\<close> is a division of doubles in the source. Both
  operands are line counts, the division is correctly rounded and rounding is monotone, so
  the comparison with the double nearest to 0.4 agrees with the comparison of the exact
  quotient with 2/5 whenever the text has fewer than \<open>4 * 10 ^ 15\<close> lines, which is every text
  an engine can hold. The model computes with rationals.
\<close>

definition isPlainText :: "jsstring \<Rightarrow> bool" where
  "isPlainText code =
     (let lines = lines_of code in
      if length lines < 2 then
        (let text = trim code in
         if test short_decl_re text then False
         else if test short_term_re text then False
         else True)
      else
        (let (proseLines, codeLines) = count_lines lines (0, 0);
             total = proseLines + codeLines in
         if total > 0 then (rat_of_nat proseLines / rat_of_nat total > 4 / 10)
         else length lines > 3 \<and> length_lt (js_match code structsym_re) 3))"

section \<open>The classifier\<close>

fun scan_patterns :: "pattern_rule list \<Rightarrow> jsstring \<Rightarrow> LanguageInfo" where
  "scan_patterns [] code = PlainText"
| "scan_patterns (rule # rest) code =
     (if test (pattern rule) code then lang rule else scan_patterns rest code)"

definition detectLanguage :: "jsstring \<Rightarrow> LanguageInfo" where
  "detectLanguage code =
     (if isPlainText code then PlainText else scan_patterns LANGUAGE_PATTERNS code)"

section \<open>The registry as shared objects\<close>

text \<open>
  The regular expressions of the registry are created once and shared by all calls, and a
  regular expression object carries the mutable field \<^verbatim>\<open>lastIndex\<close>. \<open>test_st\<close> is
  \<^verbatim>\<open>re.test(s)\<close> on such an object: with the \<^verbatim>\<open>g\<close> flag the search starts at
  \<^verbatim>\<open>lastIndex\<close> and stores the end of the match there (zero after a failure); without it
  the field is neither read nor written. The store maps the index of a rule to the
  \<^verbatim>\<open>lastIndex\<close> of its pattern. The regular expressions of \<^verbatim>\<open>isPlainText\<close> are literals
  evaluated afresh in every call, so they share nothing.
\<close>

definition test_st :: "regexp \<Rightarrow> nat \<Rightarrow> jsstring \<Rightarrow> bool \<times> nat" where
  "test_st re lastIndex s =
     (if global re then
        (if lastIndex > length s then (False, 0)
         else (case find_match (ignoreCase re) (multiline re) (source re)
                      (if lastIndex = 0 then None else Some (s ! (lastIndex - 1)))
                      (drop lastIndex s) of
                 None \<Rightarrow> (False, 0)
               | Some (ys, e) \<Rightarrow> (True, length s - length (snd e))))
      else (test re s, lastIndex))"

fun scan_patterns_st ::
    "pattern_rule list \<Rightarrow> nat \<Rightarrow> (nat \<Rightarrow> nat) \<Rightarrow> jsstring \<Rightarrow> LanguageInfo \<times> (nat \<Rightarrow> nat)" where
  "scan_patterns_st [] i store code = (PlainText, store)"
| "scan_patterns_st (rule # rest) i store code =
     (case test_st (pattern rule) (store i) code of
        (matched, lastIndex) \<Rightarrow>
          if matched then (lang rule, store(i := lastIndex))
          else scan_patterns_st rest (Suc i) (store(i := lastIndex)) code)"

definition detectLanguage_st :: "(nat \<Rightarrow> nat) \<Rightarrow> jsstring \<Rightarrow> LanguageInfo \<times> (nat \<Rightarrow> nat)" where
  "detectLanguage_st store code =
     (if isPlainText code then (PlainText, store)
      else scan_patterns_st LANGUAGE_PATTERNS 0 store code)"

section \<open>Errors as values\<close>

text \<open>
  The only value of the two functions that can be \<^verbatim>\<open>null\<close> is the result of
  \<^verbatim>\<open>code.match\<close>. Reading \<^verbatim>\<open>.length\<close> of \<^verbatim>\<open>null\<close> throws a TypeError
  (\<open>get_length\<close>); the optional chain \<^verbatim>\<open>?.length\<close> gives \<^verbatim>\<open>undefined\<close> instead
  (\<open>opt_get_length\<close>), and \<^verbatim>\<open>undefined < n\<close> is false (\<open>lt_number\<close>).
  \<open>isPlainText_exec\<close> and \<open>detectLanguage_exec\<close> are the two functions with a thrown
  error as the left value; \<^verbatim>\<open>&&\<close> evaluates its right operand only when the left
  one is true.
\<close>

datatype js_error = TypeError

definition get_length :: "jsstring list option \<Rightarrow> js_error + nat" where
  "get_length x = (case x of None \<Rightarrow> Inl TypeError | Some ms \<Rightarrow> Inr (length ms))"

definition opt_get_length :: "jsstring list option \<Rightarrow> js_error + nat option" where
  "opt_get_length x =
     (case x of None \<Rightarrow> Inr None
      | Some ms \<Rightarrow> (case get_length (Some ms) of Inl e \<Rightarrow> Inl e | Inr n \<Rightarrow> Inr (Some n)))"

definition lt_number :: "nat option \<Rightarrow> nat \<Rightarrow> bool" where
  "lt_number v n = (case v of None \<Rightarrow> False | Some k \<Rightarrow> k < n)"

definition isPlainText_exec :: "jsstring \<Rightarrow> js_error + bool" where
  "isPlainText_exec code =
     (let lines = lines_of code in
      if length lines < 2 then
        (let text = trim code in
         if test short_decl_re text then Inr False
         else if test short_term_re text then Inr False
         else Inr True)
      else
        (let (proseLines, codeLines) = count_lines lines (0, 0);
             total = proseLines + codeLines in
         if total > 0 then Inr (rat_of_nat proseLines / rat_of_nat total > 4 / 10)
         else if length lines > 3
              then (case opt_get_length (js_match code structsym_re) of
                      Inl e \<Rightarrow> Inl e | Inr v \<Rightarrow> Inr (lt_number v 3))
              else Inr False))"

definition detectLanguage_exec :: "jsstring \<Rightarrow> js_error + LanguageInfo" where
  "detectLanguage_exec code =
     (case isPlainText_exec code of Inl e \<Rightarrow> Inl e
      | Inr prose \<Rightarrow>
          if prose then Inr PlainText else Inr (scan_patterns LANGUAGE_PATTERNS code))"

section \<open>The short-input rule in words\<close>

text \<open>
  What the two regular expressions of the short-input path test, without regular
  expressions: the text begins with one of five keywords followed by white space and a
  word character; the text ends with \<^verbatim>\<open>{\<close>, \<^verbatim>\<open>}\<close> or \<^verbatim>\<open>;\<close>.
\<close>

definition decl_keywords :: "jsstring list" where
  "decl_keywords = [js ''def'', js ''function'', js ''class'', js ''public'', js ''private'']"

definition begins_with_keyword_and_word :: "jsstring \<Rightarrow> bool" where
  "begins_with_keyword_and_word text =
     list_ex (\<lambda>kw. prefix kw text \<and>
        (case drop (length kw) text of [] \<Rightarrow> False
         | c # rest \<Rightarrow> is_space c \<and>
             (case dropWhile is_space rest of [] \<Rightarrow> False | w # ws \<Rightarrow> is_word w)))
       decl_keywords"

definition ends_with_brace_or_semicolon :: "jsstring \<Rightarrow> bool" where
  "ends_with_brace_or_semicolon text =
     (case rev text of [] \<Rightarrow> False | c # cs \<Rightarrow> c = 123 \<or> c = 125 \<or> c = 59)"

text \<open>
  The same two tests in the words of the specification: the keyword is followed by an
  identifier, which starts with a letter or an underscore; the structural terminators
  are the four that the specification lists, \<^verbatim>\<open>{\<close>, \<^verbatim>\<open>}\<close>, \<^verbatim>\<open>;\<close> and \<^verbatim>\<open>:\<close>.
\<close>

definition is_ident_start :: "cu \<Rightarrow> bool" where
  "is_ident_start c = ((97 \<le> c \<and> c \<le> 122) \<or> (65 \<le> c \<and> c \<le> 90) \<or> c = 95)"

definition spec_begins_with_declaration :: "jsstring \<Rightarrow> bool" where
  "spec_begins_with_declaration text =
     list_ex (\<lambda>kw. prefix kw text \<and>
        (case drop (length kw) text of [] \<Rightarrow> False
         | c # rest \<Rightarrow> is_space c \<and>
             (case dropWhile is_space rest of [] \<Rightarrow> False | w # ws \<Rightarrow> is_ident_start w)))
       decl_keywords"

definition spec_ends_with_terminator :: "jsstring \<Rightarrow> bool" where
  "spec_ends_with_terminator text =
     (case rev text of [] \<Rightarrow> False
      | c # cs \<Rightarrow> c = 123 \<or> c = 125 \<or> c = 59 \<or> c = 58)"

definition structsym_count :: "jsstring \<Rightarrow> nat" where
  "structsym_count code = length (filter (\<lambda>c. c = 123 \<or> c = 125 \<or> c = 59) code)"

section \<open>Evaluation and general facts\<close>

lemmas rx_defs = java_rx_def cpp_rx_def c_rx_def typescript_rx_def go_rx_def rust_rx_def
  python_rx_def javascript_rx_def ruby_rx_def php_rx_def

lemmas re_defs = short_decl_re_def short_term_re_def sentence_re_def structure_re_def
  phrase_re_def bullet_re_def allcaps_re_def wordsonly_re_def keyword_re_def code_decl_re_def
  code_ctrl_re_def code_import_re_def code_term_re_def equals_re_def assign_re_def
  structsym_re_def

lemmas chr_defs = js_def is_space_def is_word_def is_lineterm_def cls_match_def eq_cu_def
  canon_def variants_def

lemmas ev = test_def regex_def lit_def sp_def wd_def chr_defs re_defs
  trim_def lines_of_def isProse_def isCode_def isPlainText_def Let_def
  js_match_def length_lt_def

lemmas ev_detect = ev detectLanguage_def LANGUAGE_PATTERNS_def rx_defs

lemma scan_patterns_find:
  "scan_patterns rules code =
     (case find (\<lambda>rule. test (pattern rule) code) rules of
        None \<Rightarrow> PlainText | Some rule \<Rightarrow> lang rule)"
  by (induction rules) simp_all

lemma scan_patterns_range:
  "scan_patterns rules code = PlainText \<or> scan_patterns rules code \<in> lang ` set rules"
  by (induction rules) auto

lemma scan_patterns_plain_iff:
  "\<forall>rule\<in>set rules. lang rule \<noteq> PlainText \<Longrightarrow>
   scan_patterns rules code = PlainText \<longleftrightarrow> (\<forall>rule\<in>set rules. \<not> test (pattern rule) code)"
  by (induction rules) auto

lemma registry_langs_not_plain: "\<forall>rule\<in>set LANGUAGE_PATTERNS. lang rule \<noteq> PlainText"
  by (simp add: LANGUAGE_PATTERNS_def PlainText_def js_def)

lemma registry_not_global: "\<forall>rule\<in>set LANGUAGE_PATTERNS. \<not> global (pattern rule)"
  by (simp add: LANGUAGE_PATTERNS_def regex_def)

lemma scan_patterns_st_pure:
  "\<forall>rule\<in>set rules. \<not> global (pattern rule) \<Longrightarrow>
   scan_patterns_st rules i store code = (scan_patterns rules code, store)"
  by (induction rules arbitrary: i) (auto simp: test_st_def)

lemma registry_names:
  "map (\<lambda>rule. name (lang rule)) LANGUAGE_PATTERNS =
     [js ''Java'', js ''C++'', js ''C'', js ''TypeScript'', js ''Go'', js ''Rust'', js ''Python'',
      js ''JavaScript'', js ''Ruby'', js ''PHP'']"
  by (simp add: LANGUAGE_PATTERNS_def)

lemma ratio_nat:
  assumes "0 < t"
  shows "(rat_of_nat p / rat_of_nat t > 4 / 10) = (2 * t < 5 * p)"
proof -
  have pos: "0 < rat_of_nat t"
    unfolding of_nat_0_less_iff by (rule assms)
  have "(rat_of_nat p / rat_of_nat t > 4 / 10) = (rat_of_nat (2 * t) < rat_of_nat (5 * p))"
    using pos by (simp add: field_simps)
  also have "\<dots> = (2 * t < 5 * p)"
    by (rule of_nat_less_iff)
  finally show ?thesis .
qed

lemma match_all_cls:
  "match_all ic ml (Cls items) p xs 0 = map (\<lambda>c. [c]) (filter (cls_match ic items) xs)"
  by (induction xs arbitrary: p) (simp_all add: Let_def)

lemma structsym_cls:
  "cls_match False [Ch 123, Ch 125, Ch 59] = (\<lambda>c. c = 123 \<or> c = 125 \<or> c = 59)"
  by (rule ext) (simp add: cls_match_def)

lemma structsym_length_lt:
  "length_lt (js_match code structsym_re) n =
     (0 < structsym_count code \<and> structsym_count code < n)"
proof -
  have m: "match_all False False (Cls [Ch 123, Ch 125, Ch 59]) None code 0 =
      map (\<lambda>c. [c]) (filter (\<lambda>c. c = 123 \<or> c = 125 \<or> c = 59) code)"
    by (simp add: match_all_cls structsym_cls)
  show ?thesis
    by (cases "filter (\<lambda>c. c = 123 \<or> c = 125 \<or> c = 59) code")
       (simp_all add: js_match_def structsym_re_def regex_def m length_lt_def structsym_count_def)
qed

lemma all_neutral_rule:
  assumes "2 \<le> length (lines_of code)" and "count_lines (lines_of code) (0, 0) = (0, 0)"
  shows "isPlainText code =
     (3 < length (lines_of code) \<and> 0 < structsym_count code \<and> structsym_count code < 3)"
  using assms by (simp add: isPlainText_def Let_def structsym_length_lt)

section \<open>Facts about the matcher\<close>

lemma star_iter_last: "star_iter f n st \<noteq> []"
  by (cases n) simp_all

text \<open>
  The fuel of a repetition is the length of the remaining input. It is enough: every
  iteration that continues has consumed input, so more fuel never changes the result.
\<close>

lemma star_iter_fuel:
  "length (snd st) \<le> n \<Longrightarrow> star_iter f n st = star_iter f (length (snd st)) st"
proof (induction n arbitrary: st rule: less_induct)
  case (less n)
  let ?F = "filter (\<lambda>st'. length (snd st') < length (snd st)) (f st)"
  show ?case
  proof (cases n)
    case 0
    with less.prems show ?thesis by simp
  next
    case (Suc m)
    have shorter: "length (snd st') < length (snd st)" if "st' \<in> set ?F" for st'
      using that by simp
    have left: "map (star_iter f m) ?F = map (\<lambda>st'. star_iter f (length (snd st')) st') ?F"
    proof (rule map_cong [OF refl])
      fix st' assume "st' \<in> set ?F"
      from shorter [OF this] less.prems Suc have "length (snd st') \<le> m" by simp
      then show "star_iter f m st' = star_iter f (length (snd st')) st'"
        using less.IH [of m st'] Suc by simp
    qed
    show ?thesis
    proof (cases "length (snd st)")
      case 0
      then have "?F = []" by simp
      with 0 Suc show ?thesis by simp
    next
      case (Suc k)
      have right: "map (star_iter f k) ?F = map (\<lambda>st'. star_iter f (length (snd st')) st') ?F"
      proof (rule map_cong [OF refl])
        fix st' assume "st' \<in> set ?F"
        from shorter [OF this] Suc have le: "length (snd st') \<le> k" by simp
        have "k < n" using Suc less.prems by simp
        from less.IH [OF this le] show "star_iter f k st' = star_iter f (length (snd st')) st'" .
      qed
      have "star_iter f n st = concat (map (star_iter f m) ?F) @ [st]"
        using \<open>n = Suc m\<close> by simp
      also have "\<dots> = concat (map (\<lambda>st'. star_iter f (length (snd st')) st') ?F) @ [st]"
        by (simp only: left)
      also have "\<dots> = concat (map (star_iter f k) ?F) @ [st]"
        by (simp only: right)
      also have "\<dots> = star_iter f (Suc k) st"
        by simp
      finally show ?thesis
        by (simp only: Suc)
    qed
  qed
qed

lemma ends_star_cls_Nil: "ends ic ml (Star (Cls I)) (q, []) = [(q, [])]"
  by simp

lemma ends_star_cls_Cons:
  "ends ic ml (Star (Cls I)) (q, x # xs) =
     (if cls_match ic I x then ends ic ml (Star (Cls I)) (Some x, xs) @ [(q, x # xs)]
      else [(q, x # xs)])"
  by simp

lemma ends_plus_cls_Nil: "ends ic ml (Plus (Cls I)) (q, []) = []"
  by simp

lemma ends_plus_cls_Cons:
  "ends ic ml (Plus (Cls I)) (q, x # xs) =
     (if cls_match ic I x then ends ic ml (Star (Cls I)) (Some x, xs) else [])"
  by simp

lemma ends_star_nonempty: "ends ic ml (Star a) st \<noteq> []"
  by (simp add: star_iter_last)

lemma star_cls_eol:
  "concat (map (ends ic False Eol) (ends ic False (Star (Cls I)) (q, xs))) \<noteq> []
     \<longleftrightarrow> list_all (cls_match ic I) xs"
proof (induction xs arbitrary: q)
  case Nil
  show ?case by simp
next
  case (Cons x xs)
  show ?case
    unfolding ends_star_cls_Cons using Cons.IH [of "Some x"] by simp
qed

lemma lit_ends_prefix:
  "lit_ends False w (q, xs) =
     (if prefix w xs then [(if w = [] then q else Some (last w), drop (length w) xs)] else [])"
proof (induction w arbitrary: q xs)
  case Nil
  show ?case by simp
next
  case (Cons a w)
  show ?case
  proof (cases xs)
    case Nil
    then show ?thesis by simp
  next
    case (Cons x xs')
    with Cons.IH [of "Some x" xs'] show ?thesis
      by (auto simp: eq_cu_def)
  qed
qed

lemma space_not_word: "is_space c \<Longrightarrow> \<not> is_word c"
  by (auto simp: is_space_def is_word_def)

lemma cls_space: "cls_match ic [ClsS] c = is_space c"
  by (auto simp: cls_match_def variants_def is_space_def)

lemma cls_word: "cls_match False [ClsW] c = is_word c"
  by (simp add: cls_match_def)

lemma spaces_then_word:
  "concat (map (ends False False (Plus wd)) (ends False False (Star sp) (q, xs))) \<noteq> []
     \<longleftrightarrow> (case dropWhile is_space xs of [] \<Rightarrow> False | w # ws \<Rightarrow> is_word w)"
proof (induction xs arbitrary: q)
  case Nil
  show ?case by (simp add: sp_def wd_def)
next
  case (Cons x xs)
  have plus: "ends False False (Plus wd) (q, x # xs) \<noteq> [] \<longleftrightarrow> is_word x"
    by (simp add: wd_def cls_word star_iter_last)
  have step: "ends False False (Star sp) (q, x # xs) =
      (if is_space x then ends False False (Star sp) (Some x, xs) @ [(q, x # xs)]
       else [(q, x # xs)])"
    unfolding sp_def by (simp only: ends_star_cls_Cons cls_space)
  show ?case
    unfolding step using Cons.IH [of "Some x"] plus space_not_word [of x]
    by (auto simp del: ends.simps)
qed

lemma space_word_seq:
  "ends False False (Seq (Plus sp) (Plus wd)) (q, ys) \<noteq> []
     \<longleftrightarrow> (case ys of [] \<Rightarrow> False
          | c # rest \<Rightarrow> is_space c \<and>
              (case dropWhile is_space rest of [] \<Rightarrow> False | w # ws \<Rightarrow> is_word w))"
proof (cases ys)
  case Nil
  then show ?thesis by (simp add: sp_def)
next
  case (Cons c rest)
  have "ends False False (Seq (Plus sp) (Plus wd)) (q, c # rest) =
      (if is_space c
       then concat (map (ends False False (Plus wd)) (ends False False (Star sp) (Some c, rest)))
       else [])"
    by (simp add: sp_def cls_space)
  then show ?thesis
    using spaces_then_word [of "Some c" rest] Cons by (simp del: ends.simps)
qed


lemma find_match_anchored_Some:
  assumes "\<And>q b. ends ic ml r (Some q, b) = []"
  shows "find_match ic ml r (Some q) xs = None"
  by (induction xs arbitrary: q) (simp_all add: assms)

lemma find_match_anchored:
  assumes "\<And>q b. ends ic ml r (Some q, b) = []"
  shows "find_match ic ml r None xs \<noteq> None \<longleftrightarrow> ends ic ml r (None, xs) \<noteq> []"
  by (cases xs) (simp_all add: find_match_anchored_Some [OF assms] split: list.splits)

lemma ends_seq_bol_Some: "ends ic False (Seq Bol R) (Some q, b) = []"
  by simp

lemma ends_seq_bol_None: "ends ic ml (Seq Bol R) (None, t) = ends ic ml R (None, t)"
  by simp

lemma ends_seq_alt:
  "ends ic ml (Seq (Alt a b) R) st = ends ic ml (Seq a R) st @ ends ic ml (Seq b R) st"
  by simp

lemma ends_seq_lit_Nil:
  "(ends False False (Seq (Lit k) R) (q, t) = []) =
     (prefix k t \<longrightarrow>
        ends False False R (if k = [] then q else Some (last k), drop (length k) t) = [])"
  by (simp add: lit_ends_prefix)

lemma space_word_seq_Nil:
  "(ends False False (Seq (Plus sp) (Plus wd)) (q, ys) = []) =
     (\<not> (case ys of [] \<Rightarrow> False
          | c # rest \<Rightarrow> is_space c \<and>
              (case dropWhile is_space rest of [] \<Rightarrow> False | w # ws \<Rightarrow> is_word w)))"
  using space_word_seq [of q ys] by blast

lemma test_short_decl: "test short_decl_re t = begins_with_keyword_and_word t"
proof -
  have "test short_decl_re t \<longleftrightarrow> ends False False (source short_decl_re) (None, t) \<noteq> []"
    unfolding test_def
    by (simp add: short_decl_re_def regex_def find_match_anchored [OF ends_seq_bol_Some]
        del: ends.simps not_None_eq)
  also have "\<dots> \<longleftrightarrow> begins_with_keyword_and_word t"
    unfolding short_decl_re_def regex_def lit_def begins_with_keyword_and_word_def
      decl_keywords_def
    by (simp only: regexp.simps seqs.simps alts.simps ends_seq_bol_None ends_seq_alt
        append_is_Nil_conv ends_seq_lit_Nil space_word_seq_Nil list_ex_Nil_iff list_ex_Cons_iff de_Morgan_conj
        not_imp not_not)
       blast
  finally show ?thesis .
qed

lemma term_ends_Nil: "ends False False (Seq (Cls T) (Seq (Star sp) Eol)) (p, []) = []"
  by simp

lemma term_ends_Cons:
  "ends False False (Seq (Cls T) (Seq (Star sp) Eol)) (p, x # xs) \<noteq> []
     \<longleftrightarrow> cls_match False T x \<and> list_all is_space xs"
proof -
  have "ends False False (Seq (Cls T) (Seq (Star sp) Eol)) (p, x # xs) =
      (if cls_match False T x
       then concat (map (ends False False Eol) (ends False False (Star (Cls [ClsS])) (Some x, xs)))
       else [])"
    by (simp add: sp_def)
  then show ?thesis
    using star_cls_eol [of False "[ClsS]" "Some x" xs]
    by (simp add: cls_space [abs_def] del: ends.simps)
qed

lemma term_find:
  "find_match False False (Seq (Cls T) (Seq (Star sp) Eol)) p xs \<noteq> None
     \<longleftrightarrow> (\<exists>a c b. xs = a @ c # b \<and> cls_match False T c \<and> list_all is_space b)"
proof (induction xs arbitrary: p)
  case Nil
  show ?case by (simp del: ends.simps add: term_ends_Nil)
next
  case (Cons x xs)
  have "find_match False False (Seq (Cls T) (Seq (Star sp) Eol)) p (x # xs) \<noteq> None
      \<longleftrightarrow> (cls_match False T x \<and> list_all is_space xs)
        \<or> find_match False False (Seq (Cls T) (Seq (Star sp) Eol)) (Some x) xs \<noteq> None"
    using term_ends_Cons [of T p x xs]
    by (cases "ends False False (Seq (Cls T) (Seq (Star sp) Eol)) (p, x # xs)")
       (auto simp del: ends.simps not_None_eq)
  also have "\<dots> \<longleftrightarrow> (cls_match False T x \<and> list_all is_space xs)
        \<or> (\<exists>a c b. xs = a @ c # b \<and> cls_match False T c \<and> list_all is_space b)"
    by (simp only: Cons.IH)
  also have "\<dots> \<longleftrightarrow> (\<exists>a c b. x # xs = a @ c # b \<and> cls_match False T c \<and> list_all is_space b)"
    by (auto simp: Cons_eq_append_conv)
  finally show ?case .
qed

lemma trim_last_not_space: "trim s \<noteq> [] \<Longrightarrow> \<not> is_space (last (trim s))"
proof -
  assume ne: "trim s \<noteq> []"
  let ?ys = "dropWhile is_space (rev (dropWhile is_space s))"
  from ne have ys: "?ys \<noteq> []"
    by (simp add: trim_def)
  have "last (trim s) = hd ?ys"
    using ys by (simp add: trim_def last_rev)
  with hd_dropWhile [OF ys] show ?thesis by simp
qed

lemma ends_with_brace_or_semicolon_last:
  "ends_with_brace_or_semicolon t \<longleftrightarrow> t \<noteq> [] \<and> (last t = 123 \<or> last t = 125 \<or> last t = 59)"
  by (cases t rule: rev_cases) (simp_all add: ends_with_brace_or_semicolon_def)

lemma test_short_term:
  "test short_term_re (trim s) = ends_with_brace_or_semicolon (trim s)"
proof -
  let ?t = "trim s"
  have "test short_term_re ?t \<longleftrightarrow>
      (\<exists>a c b. ?t = a @ c # b \<and> (c = 123 \<or> c = 125 \<or> c = 59) \<and> list_all is_space b)"
    unfolding test_def short_term_re_def regex_def
    by (simp add: term_find structsym_cls del: ends.simps not_None_eq)
  also have "\<dots> \<longleftrightarrow> ?t \<noteq> [] \<and> (last ?t = 123 \<or> last ?t = 125 \<or> last ?t = 59)"
  proof
    assume "\<exists>a c b. ?t = a @ c # b \<and> (c = 123 \<or> c = 125 \<or> c = 59) \<and> list_all is_space b"
    then obtain a c b where t: "?t = a @ c # b" and c: "c = 123 \<or> c = 125 \<or> c = 59"
      and b: "list_all is_space b" by blast
    from t have ne: "?t \<noteq> []" by simp
    have "b = []"
    proof (rule ccontr)
      assume "b \<noteq> []"
      then have "last ?t = last b" and "last b \<in> set b"
        using t by simp_all
      with b have "is_space (last ?t)"
        by (simp add: list_all_iff)
      with trim_last_not_space [OF ne] show False by simp
    qed
    with t c ne show "?t \<noteq> [] \<and> (last ?t = 123 \<or> last ?t = 125 \<or> last ?t = 59)"
      by simp
  next
    assume r: "?t \<noteq> [] \<and> (last ?t = 123 \<or> last ?t = 125 \<or> last ?t = 59)"
    then have "?t = butlast ?t @ last ?t # [] \<and> (last ?t = 123 \<or> last ?t = 125 \<or> last ?t = 59)
        \<and> list_all is_space []"
      by simp
    then show "\<exists>a c b. ?t = a @ c # b \<and> (c = 123 \<or> c = 125 \<or> c = 59) \<and> list_all is_space b"
      by blast
  qed
  also have "\<dots> \<longleftrightarrow> ends_with_brace_or_semicolon ?t"
    by (simp only: ends_with_brace_or_semicolon_last)
  finally show ?thesis .
qed

section \<open>The prose short-circuit\<close>

text \<open>
  Claim C1. Whenever the prose scorer classifies the input as prose, the classifier returns
  the Plain Text descriptor, whatever the patterns of the registry say about the text: the
  result is the descriptor of no rule, matching or not.
\<close>

theorem prose_short_circuit:
  assumes "isPlainText code"
  shows "detectLanguage code = PlainText
     \<and> (\<forall>rule\<in>set LANGUAGE_PATTERNS. detectLanguage code \<noteq> lang rule)"
  using assms registry_langs_not_plain by (auto simp: detectLanguage_def)

lemma note_prose: "isPlainText (js ''Note:'')"
  by (simp add: ev)

lemma note_python: "test (pattern (LANGUAGE_PATTERNS ! 6)) (js ''Note:'')"
  by (simp add: ev LANGUAGE_PATTERNS_def python_rx_def)

text \<open>The one-line text \<^verbatim>\<open>Note:\<close> scores as prose and matches the Python pattern.\<close>

theorem prose_short_circuit_witness:
  "isPlainText (js ''Note:'') \<and> LANGUAGE_PATTERNS ! 6 \<in> set LANGUAGE_PATTERNS
   \<and> name (lang (LANGUAGE_PATTERNS ! 6)) = js ''Python''
   \<and> test (pattern (LANGUAGE_PATTERNS ! 6)) (js ''Note:'')
   \<and> detectLanguage (js ''Note:'') = PlainText"
proof -
  have mem: "LANGUAGE_PATTERNS ! 6 \<in> set LANGUAGE_PATTERNS"
    by (simp add: LANGUAGE_PATTERNS_def)
  have nm: "name (lang (LANGUAGE_PATTERNS ! 6)) = js ''Python''"
    by (simp add: LANGUAGE_PATTERNS_def)
  from prose_short_circuit [OF note_prose] note_prose mem nm note_python
  show ?thesis by blast
qed

section \<open>The ratio rule\<close>

text \<open>
  Claim C3. For a text with at least two non-empty lines of which at least one is counted
  as prose or as code, the prose scorer returns true exactly when the quotient of the prose
  lines by the counted lines is strictly greater than 0.4: a quotient of exactly 0.4 is not
  prose. In whole numbers the condition is \<open>2 * total < 5 * proseLines\<close>.
\<close>

theorem ratio_threshold:
  assumes "2 \<le> length (lines_of code)"
    and "count_lines (lines_of code) (0, 0) = (proseLines, codeLines)"
    and "0 < proseLines + codeLines"
  shows "(isPlainText code \<longleftrightarrow>
            rat_of_nat proseLines / rat_of_nat (proseLines + codeLines) > 4 / 10)
     \<and> (rat_of_nat proseLines / rat_of_nat (proseLines + codeLines) = 4 / 10
          \<longrightarrow> \<not> isPlainText code)
     \<and> (isPlainText code \<longleftrightarrow> 2 * (proseLines + codeLines) < 5 * proseLines)"
proof -
  have a: "isPlainText code \<longleftrightarrow>
      rat_of_nat proseLines / rat_of_nat (proseLines + codeLines) > 4 / 10"
    using assms by (simp add: isPlainText_def Let_def)
  from a ratio_nat [OF assms(3), of proseLines] show ?thesis
    by auto
qed

lemma hiyo_lines: "length (lines_of (js ''Hi\<newline>Yo\<newline>a;\<newline>b;\<newline>c;'')) = 5"
  by (simp add: ev)

lemma hiyo_counts: "count_lines (lines_of (js ''Hi\<newline>Yo\<newline>a;\<newline>b;\<newline>c;'')) (0, 0) = (2, 3)"
  by (simp add: ev)

lemma hiyoso_lines: "length (lines_of (js ''Hi\<newline>Yo\<newline>So\<newline>b;\<newline>c;'')) = 5"
  by (simp add: ev)

lemma hiyoso_counts: "count_lines (lines_of (js ''Hi\<newline>Yo\<newline>So\<newline>b;\<newline>c;'')) (0, 0) = (3, 2)"
  by (simp add: ev)

text \<open>
  Two prose lines of five counted lines give exactly 0.4 and the text is not prose; three
  of five give 0.6 and the text is prose.
\<close>

theorem ratio_threshold_witness:
  "count_lines (lines_of (js ''Hi\<newline>Yo\<newline>a;\<newline>b;\<newline>c;'')) (0, 0) = (2, 3)
   \<and> rat_of_nat 2 / rat_of_nat (2 + 3) = 4 / 10
   \<and> \<not> isPlainText (js ''Hi\<newline>Yo\<newline>a;\<newline>b;\<newline>c;'')
   \<and> count_lines (lines_of (js ''Hi\<newline>Yo\<newline>So\<newline>b;\<newline>c;'')) (0, 0) = (3, 2)
   \<and> rat_of_nat 3 / rat_of_nat (3 + 2) > 4 / 10
   \<and> isPlainText (js ''Hi\<newline>Yo\<newline>So\<newline>b;\<newline>c;'')"
proof -
  have l1: "2 \<le> length (lines_of (js ''Hi\<newline>Yo\<newline>a;\<newline>b;\<newline>c;''))"
    by (simp add: hiyo_lines)
  have l2: "2 \<le> length (lines_of (js ''Hi\<newline>Yo\<newline>So\<newline>b;\<newline>c;''))"
    by (simp add: hiyoso_lines)
  have p1: "0 < (2::nat) + 3" and p2: "0 < (3::nat) + 2"
    by simp_all
  from ratio_threshold [OF l1 hiyo_counts p1] ratio_threshold [OF l2 hiyoso_counts p2]
    hiyo_counts hiyoso_counts
  show ?thesis by simp
qed

section \<open>The fallback for texts without counted lines\<close>

text \<open>
  Claim C9. For a text with at least two non-empty lines, none of which is counted as prose
  or as code, and without any of the characters \<^verbatim>\<open>{\<close>, \<^verbatim>\<open>}\<close>, \<^verbatim>\<open>;\<close>, the prose
  scorer returns false, however many lines there are: the match is \<^verbatim>\<open>null\<close> and the
  comparison of its missing length with 3 is false.
\<close>

theorem neutral_without_symbols_is_code:
  assumes "2 \<le> length (lines_of code)"
    and "count_lines (lines_of code) (0, 0) = (0, 0)"
    and "\<forall>c\<in>set code. c \<noteq> 123 \<and> c \<noteq> 125 \<and> c \<noteq> 59"
  shows "\<not> isPlainText code"
proof -
  have "filter (\<lambda>c. c = 123 \<or> c = 125 \<or> c = 59) code = []"
    using assms(3) by (auto simp: filter_empty_conv)
  then have "structsym_count code = 0"
    by (simp add: structsym_count_def)
  with all_neutral_rule [OF assms(1,2)] show ?thesis by simp
qed

lemma sums_lines: "length (lines_of (js ''1+1\<newline>2+2\<newline>3+3\<newline>4+4\<newline>5+5'')) = 5"
  by (simp add: ev)

lemma sums_counts:
  "count_lines (lines_of (js ''1+1\<newline>2+2\<newline>3+3\<newline>4+4\<newline>5+5'')) (0, 0) = (0, 0)"
  by (simp add: ev)

theorem neutral_without_symbols_is_code_witness:
  "3 < length (lines_of (js ''1+1\<newline>2+2\<newline>3+3\<newline>4+4\<newline>5+5''))
   \<and> count_lines (lines_of (js ''1+1\<newline>2+2\<newline>3+3\<newline>4+4\<newline>5+5'')) (0, 0) = (0, 0)
   \<and> structsym_count (js ''1+1\<newline>2+2\<newline>3+3\<newline>4+4\<newline>5+5'') = 0
   \<and> \<not> isPlainText (js ''1+1\<newline>2+2\<newline>3+3\<newline>4+4\<newline>5+5'')"
proof -
  have len: "2 \<le> length (lines_of (js ''1+1\<newline>2+2\<newline>3+3\<newline>4+4\<newline>5+5''))"
    by (simp add: sums_lines)
  have none: "\<forall>c\<in>set (js ''1+1\<newline>2+2\<newline>3+3\<newline>4+4\<newline>5+5''). c \<noteq> 123 \<and> c \<noteq> 125 \<and> c \<noteq> 59"
    by (simp add: js_def)
  have cnt: "structsym_count (js ''1+1\<newline>2+2\<newline>3+3\<newline>4+4\<newline>5+5'') = 0"
    by (simp add: structsym_count_def js_def)
  from neutral_without_symbols_is_code [OF len sums_counts none] sums_lines sums_counts cnt
  show ?thesis by simp
qed

text \<open>
  Claim C4 fails on the code. It states that a text whose lines are all neutral is prose
  exactly when it has more than three lines and fewer than three of the characters
  \<^verbatim>\<open>{\<close>, \<^verbatim>\<open>}\<close>, \<^verbatim>\<open>;\<close>, zero included. The text below has four neutral lines and
  none of these characters, and the scorer returns false: the match is \<^verbatim>\<open>null\<close>, and
  the comparison of its missing length with 3 is false.
\<close>

theorem neutral_fallback_zero_symbols:
  "length (lines_of (js ''1\<newline>2\<newline>3\<newline>4'')) = 4
   \<and> count_lines (lines_of (js ''1\<newline>2\<newline>3\<newline>4'')) (0, 0) = (0, 0)
   \<and> structsym_count (js ''1\<newline>2\<newline>3\<newline>4'') = 0
   \<and> js_match (js ''1\<newline>2\<newline>3\<newline>4'') structsym_re = None
   \<and> \<not> isPlainText (js ''1\<newline>2\<newline>3\<newline>4'')"
  by (simp add: ev structsym_count_def)

section \<open>Plain Text as a result\<close>

text \<open>
  Claim C5, as amended. If the prose scorer says prose, the descriptor is Plain Text. The
  converse fails, because the registry scan falls back to Plain Text: the descriptor is
  Plain Text exactly when the scorer says prose or no pattern of the registry matches.
\<close>

theorem plain_descriptor_iff:
  "(isPlainText code \<longrightarrow> detectLanguage code = PlainText)
   \<and> (detectLanguage code = PlainText \<longleftrightarrow>
        isPlainText code \<or> (\<forall>rule\<in>set LANGUAGE_PATTERNS. \<not> test (pattern rule) code))"
  using scan_patterns_plain_iff [OF registry_langs_not_plain, of code]
  by (simp add: detectLanguage_def)

lemma x_semicolon_not_prose: "\<not> isPlainText (js ''x;'')"
  by (simp add: ev)

lemma x_semicolon_no_match: "\<forall>rule\<in>set LANGUAGE_PATTERNS. \<not> test (pattern rule) (js ''x;'')"
  by (simp add: ev LANGUAGE_PATTERNS_def rx_defs)

theorem plain_descriptor_iff_witness:
  "\<not> isPlainText (js ''x;'')
   \<and> list_all (\<lambda>rule. \<not> test (pattern rule) (js ''x;'')) LANGUAGE_PATTERNS
   \<and> detectLanguage (js ''x;'') = PlainText"
  using plain_descriptor_iff [of "js ''x;''"] x_semicolon_not_prose x_semicolon_no_match
  unfolding list_all_iff by blast

text \<open>
  The claim as stated fails at the text \<^verbatim>\<open>x;\<close>: it is not prose, and its descriptor is
  Plain Text.
\<close>

theorem plain_iff_counterexample:
  "\<not> (isPlainText (js ''x;'') \<longleftrightarrow> detectLanguage (js ''x;'') = PlainText)"
  using x_semicolon_not_prose x_semicolon_no_match
    scan_patterns_plain_iff [OF registry_langs_not_plain, of "js ''x;''"]
  by (simp add: detectLanguage_def)

section \<open>Determinism\<close>

text \<open>
  Claim C8. The result of the classifier does not depend on the \<^verbatim>\<open>lastIndex\<close> fields
  that earlier calls may have left in the shared patterns, and a call leaves them as they
  were: from any two stores the same text gets the same descriptor, which is the value of
  the pure function \<open>detectLanguage\<close>.
\<close>

theorem detectLanguage_deterministic:
  "fst (detectLanguage_st store code) = detectLanguage code
   \<and> snd (detectLanguage_st store code) = store
   \<and> fst (detectLanguage_st store' code) = fst (detectLanguage_st store code)"
  by (simp add: detectLanguage_st_def detectLanguage_def scan_patterns_st_pure registry_not_global)

theorem detectLanguage_deterministic_witness:
  "fst (detectLanguage_st (\<lambda>i. 7) (js ''y = 2;'')) = fst (detectLanguage_st (\<lambda>i. 0) (js ''y = 2;''))
   \<and> snd (detectLanguage_st (\<lambda>i. 0) (js ''y = 2;'')) = (\<lambda>i. 0)"
  using detectLanguage_deterministic [of "\<lambda>i. 0" "js ''y = 2;''" "\<lambda>i. 7"]
  by simp

section \<open>The short-input rule\<close>

lemma empty_prose: "isPlainText []"
  by (simp add: ev)

text \<open>
  Claim C6, as amended. A text with fewer than two non-empty lines is classified as code
  exactly when its trimmed form begins with one of the keywords \<^verbatim>\<open>def\<close>,
  \<^verbatim>\<open>function\<close>, \<^verbatim>\<open>class\<close>, \<^verbatim>\<open>public\<close>, \<^verbatim>\<open>private\<close> followed by white space and
  a word character (a letter, a digit or an underscore), or ends with \<^verbatim>\<open>{\<close>, \<^verbatim>\<open>}\<close>
  or \<^verbatim>\<open>;\<close>; otherwise it is prose. The empty string is prose, and the classifier
  returns the Plain Text descriptor for it.
\<close>

theorem short_input_rule:
  "(length (lines_of code) < 2 \<longrightarrow>
      (isPlainText code \<longleftrightarrow>
         \<not> (begins_with_keyword_and_word (trim code) \<or> ends_with_brace_or_semicolon (trim code))))
   \<and> isPlainText [] \<and> detectLanguage [] = PlainText"
proof -
  have "length (lines_of code) < 2 \<longrightarrow>
      (isPlainText code \<longleftrightarrow>
         \<not> (begins_with_keyword_and_word (trim code) \<or> ends_with_brace_or_semicolon (trim code)))"
    by (simp add: isPlainText_def Let_def test_short_decl test_short_term)
  moreover have "detectLanguage [] = PlainText"
    using empty_prose by (simp only: detectLanguage_def if_True)
  ultimately show ?thesis
    using empty_prose by blast
qed

lemma decl_lines: "length (lines_of (js ''  def foo'')) = 1"
  by (simp add: ev)

lemma decl_spec: "begins_with_keyword_and_word (trim (js ''  def foo''))"
  by (simp add: begins_with_keyword_and_word_def decl_keywords_def trim_def chr_defs)

lemma stmt_lines: "length (lines_of (js ''x = 1; '')) = 1"
  by (simp add: ev)

lemma stmt_spec: "ends_with_brace_or_semicolon (trim (js ''x = 1; ''))"
  by (simp add: ends_with_brace_or_semicolon_def trim_def chr_defs)

lemma hello_lines: "length (lines_of (js ''hello'')) = 1"
  by (simp add: ev)

lemma hello_spec:
  "\<not> begins_with_keyword_and_word (trim (js ''hello''))
   \<and> \<not> ends_with_brace_or_semicolon (trim (js ''hello''))"
  by (simp add: begins_with_keyword_and_word_def decl_keywords_def ends_with_brace_or_semicolon_def
      trim_def chr_defs)

theorem short_input_rule_witness:
  "length (lines_of (js ''  def foo'')) < 2 \<and> begins_with_keyword_and_word (trim (js ''  def foo''))
   \<and> \<not> isPlainText (js ''  def foo'')
   \<and> length (lines_of (js ''x = 1; '')) < 2 \<and> ends_with_brace_or_semicolon (trim (js ''x = 1; ''))
   \<and> \<not> isPlainText (js ''x = 1; '')
   \<and> length (lines_of (js ''hello'')) < 2 \<and> isPlainText (js ''hello'')"
  using short_input_rule [of "js ''  def foo''"] short_input_rule [of "js ''x = 1; ''"]
    short_input_rule [of "js ''hello''"]
    decl_lines decl_spec stmt_lines stmt_spec hello_lines hello_spec
  by simp


lemma note_lines: "length (lines_of (js ''Note:'')) = 1"
  by (simp add: ev)

lemma def9_lines: "length (lines_of (js ''def 9'')) = 1"
  by (simp add: ev)

lemma def9_code: "\<not> isPlainText (js ''def 9'')"
  by (simp add: ev)

text \<open>
  The claim as stated, with the identifier and the terminators of the specification,
  fails twice. The one-line text \<^verbatim>\<open>Note:\<close> ends with the terminator \<^verbatim>\<open>:\<close> and is
  prose; the one-line text \<^verbatim>\<open>def 9\<close> has no identifier after the keyword and no
  terminator at its end, and is code.
\<close>

theorem short_input_spec_counterexample:
  "length (lines_of (js ''Note:'')) < 2
   \<and> spec_ends_with_terminator (trim (js ''Note:''))
   \<and> isPlainText (js ''Note:'')
   \<and> length (lines_of (js ''def 9'')) < 2
   \<and> \<not> spec_begins_with_declaration (trim (js ''def 9''))
   \<and> \<not> spec_ends_with_terminator (trim (js ''def 9''))
   \<and> \<not> isPlainText (js ''def 9'')"
  using note_lines note_prose def9_lines def9_code
  by (simp add: spec_begins_with_declaration_def decl_keywords_def spec_ends_with_terminator_def
      is_ident_start_def trim_def chr_defs)

section \<open>Precedence in the registry\<close>

lemma js_includes_split: "js_includes s w \<Longrightarrow> \<exists>a b. s = a @ w @ b"
proof (induction s)
  case Nil
  then show ?case by simp
next
  case (Cons x xs)
  show ?case
  proof (cases "prefix w (x # xs)")
    case True
    then obtain b where "x # xs = w @ b"
      by (auto simp: prefix_def)
    then have "x # xs = [] @ w @ b" by simp
    then show ?thesis by blast
  next
    case False
    with Cons.prems have "js_includes xs w" by simp
    from Cons.IH [OF this] obtain a b where "xs = a @ w @ b" by blast
    then have "x # xs = (x # a) @ w @ b" by simp
    then show ?thesis by blast
  qed
qed

lemma find_match_append:
  assumes "\<And>q. ends ic ml r (q, b) \<noteq> []"
  shows "find_match ic ml r p (a @ b) \<noteq> None"
proof (induction a arbitrary: p)
  case Nil
  from assms [of p] show ?case
    by (cases b) (auto simp del: ends.simps split: list.splits)
next
  case (Cons x a)
  from Cons.IH [of "Some x"] show ?case
    by (auto simp del: ends.simps split: list.splits)
qed

lemma cpp_std: "ends False False cpp_rx (q, js ''std::'' @ b) \<noteq> []"
  by (simp add: cpp_rx_def lit_def js_def eq_cu_def)

lemma includes_std_cpp:
  assumes "js_includes code (js ''std::'')"
  shows "test (pattern (LANGUAGE_PATTERNS ! 1)) code"
proof -
  from js_includes_split [OF assms] obtain a b where c: "code = a @ js ''std::'' @ b"
    by blast
  have "find_match False False cpp_rx None (a @ js ''std::'' @ b) \<noteq> None"
    by (rule find_match_append) (rule cpp_std)
  with c show ?thesis
    by (simp add: LANGUAGE_PATTERNS_def test_def regex_def del: not_None_eq)
qed

lemma scan_second:
  assumes "test (pattern (LANGUAGE_PATTERNS ! 1)) code"
  shows "scan_patterns LANGUAGE_PATTERNS code =
     (if test (pattern (LANGUAGE_PATTERNS ! 0)) code then lang (LANGUAGE_PATTERNS ! 0)
      else lang (LANGUAGE_PATTERNS ! 1))"
  using assms by (simp add: LANGUAGE_PATTERNS_def)

text \<open>
  Claim C2, as amended. For a text that is not prose the classifier returns the descriptor
  of the first rule, in the order Java, C++, C, TypeScript, Go, Rust, Python, JavaScript,
  Ruby, PHP, whose pattern matches, and the Plain Text descriptor when none matches. A
  text that is not prose and contains both \<^verbatim>\<open>std::\<close> and \<^verbatim>\<open>printf(\<close> is never
  classified as C: it is C++, unless the Java pattern, which is tried first, matches as
  well, and then it is Java.
\<close>

theorem registry_precedence:
  assumes "\<not> isPlainText code"
  shows "detectLanguage code =
       (case find (\<lambda>rule. test (pattern rule) code) LANGUAGE_PATTERNS of
          None \<Rightarrow> PlainText | Some rule \<Rightarrow> lang rule)
     \<and> map (\<lambda>rule. name (lang rule)) LANGUAGE_PATTERNS =
         [js ''Java'', js ''C++'', js ''C'', js ''TypeScript'', js ''Go'', js ''Rust'',
          js ''Python'', js ''JavaScript'', js ''Ruby'', js ''PHP'']
     \<and> (js_includes code (js ''std::'') \<and> js_includes code (js ''printf('') \<longrightarrow>
          name (detectLanguage code) =
            (if test (pattern (LANGUAGE_PATTERNS ! 0)) code then js ''Java'' else js ''C++'')
          \<and> name (detectLanguage code) \<noteq> js ''C'')"
proof -
  have d: "detectLanguage code = scan_patterns LANGUAGE_PATTERNS code"
    using assms by (simp add: detectLanguage_def)
  have n0: "name (lang (LANGUAGE_PATTERNS ! 0)) = js ''Java''"
    and n1: "name (lang (LANGUAGE_PATTERNS ! 1)) = js ''C++''"
    by (simp_all add: LANGUAGE_PATTERNS_def)
  have ne: "js ''Java'' \<noteq> js ''C''" "js ''C++'' \<noteq> js ''C''"
    by (simp_all add: js_def)
  have a: "detectLanguage code =
       (case find (\<lambda>rule. test (pattern rule) code) LANGUAGE_PATTERNS of
          None \<Rightarrow> PlainText | Some rule \<Rightarrow> lang rule)"
    by (simp only: d scan_patterns_find)
  have "name (detectLanguage code) =
          (if test (pattern (LANGUAGE_PATTERNS ! 0)) code then js ''Java'' else js ''C++'')
        \<and> name (detectLanguage code) \<noteq> js ''C''"
    if "js_includes code (js ''std::'')"
    using scan_second [OF includes_std_cpp [OF that]] d n0 n1 ne by simp
  then have c: "js_includes code (js ''std::'') \<and> js_includes code (js ''printf('') \<longrightarrow>
          name (detectLanguage code) =
            (if test (pattern (LANGUAGE_PATTERNS ! 0)) code then js ''Java'' else js ''C++'')
          \<and> name (detectLanguage code) \<noteq> js ''C''"
    by blast
  show ?thesis
    by (rule conjI [OF a conjI [OF registry_names c]])
qed

lemma std_printf_not_prose: "\<not> isPlainText (js ''std::printf(;'')"
  by (simp add: ev)

lemma std_printf_includes:
  "js_includes (js ''std::printf(;'') (js ''std::'')
   \<and> js_includes (js ''std::printf(;'') (js ''printf('')"
  by (simp add: js_def)

lemma std_printf_not_java: "\<not> test (pattern (LANGUAGE_PATTERNS ! 0)) (js ''std::printf(;'')"
  by (simp add: ev LANGUAGE_PATTERNS_def java_rx_def)

theorem registry_precedence_witness:
  "\<not> isPlainText (js ''std::printf(;'')
   \<and> js_includes (js ''std::printf(;'') (js ''std::'')
   \<and> js_includes (js ''std::printf(;'') (js ''printf('')
   \<and> \<not> test (pattern (LANGUAGE_PATTERNS ! 0)) (js ''std::printf(;'')
   \<and> name (detectLanguage (js ''std::printf(;'')) = js ''C++''"
  using registry_precedence [OF std_printf_not_prose, THEN conjunct2, THEN conjunct2]
    std_printf_not_prose std_printf_includes std_printf_not_java
  by simp

text \<open>
  The claim as stated fails at a text that holds both tokens and a Java marker: the
  result is Java, not C++.
\<close>

theorem cpp_over_c_counterexample:
  "\<not> isPlainText (js ''public void std::printf(;'')
   \<and> js_includes (js ''public void std::printf(;'') (js ''std::'')
   \<and> js_includes (js ''public void std::printf(;'') (js ''printf('')
   \<and> name (detectLanguage (js ''public void std::printf(;'')) = js ''Java''
   \<and> name (detectLanguage (js ''public void std::printf(;'')) \<noteq> js ''C++''"
  by (simp add: ev_detect)

section \<open>Totality and the range of results\<close>

lemma trim_spaces:
  assumes "list_all is_space s"
  shows "trim s = []"
proof -
  have dw: "dropWhile is_space s = []"
    using assms by (induction s) simp_all
  show ?thesis
    unfolding trim_def dw by simp
qed

lemma test_short_empty: "\<not> test short_decl_re [] \<and> \<not> test short_term_re []"
  by (simp add: ev)

lemma spaces_prose:
  assumes "list_all is_space code"
  shows "isPlainText code"
proof -
  have t0: "trim [] = []"
    by (simp add: trim_def)
  have "lines_of code = []"
    by (simp add: lines_of_def trim_spaces [OF assms] t0)
  then show ?thesis
    using test_short_empty by (simp add: isPlainText_def trim_spaces [OF assms])
qed

lemma isPlainText_exec_pure: "isPlainText_exec code = Inr (isPlainText code)"
proof -
  have "(case opt_get_length m of Inl e \<Rightarrow> Inl e | Inr v \<Rightarrow> Inr (lt_number v 3)) =
      (Inr (length_lt m 3) :: js_error + bool)" for m
    by (cases m) (simp_all add: opt_get_length_def get_length_def lt_number_def length_lt_def)
  then show ?thesis
    by (auto simp add: isPlainText_exec_def isPlainText_def Let_def split: prod.splits)
qed

lemma detectLanguage_exec_pure: "detectLanguage_exec code = Inr (detectLanguage code)"
  by (simp add: detectLanguage_exec_def isPlainText_exec_pure detectLanguage_def)

text \<open>
  Claim C7. The classifier never throws: on every string, the empty one and those of
  white space only included, the two functions return a value and not an error, and the
  value of the classifier is the Plain Text descriptor or the descriptor of a rule of the
  registry. For the empty string and for a text of white space only it is the Plain Text
  descriptor.
\<close>

theorem detectLanguage_total:
  "(\<forall>e. isPlainText_exec code \<noteq> Inl e) \<and> (\<forall>e. detectLanguage_exec code \<noteq> Inl e)
   \<and> (\<exists>d. detectLanguage_exec code = Inr d
          \<and> (d = PlainText \<or> d \<in> lang ` set LANGUAGE_PATTERNS))
   \<and> detectLanguage_exec [] = Inr PlainText
   \<and> (list_all is_space code \<longrightarrow> detectLanguage_exec code = Inr PlainText)"
proof -
  have "list_all is_space ([] :: jsstring)" by simp
  from spaces_prose [OF this] have "detectLanguage_exec [] = Inr PlainText"
    by (simp add: detectLanguage_exec_pure detectLanguage_def)
  moreover have "detectLanguage_exec code = Inr PlainText" if "list_all is_space code"
    using spaces_prose [OF that] by (simp add: detectLanguage_exec_pure detectLanguage_def)
  moreover have "detectLanguage code = PlainText \<or> detectLanguage code \<in> lang ` set LANGUAGE_PATTERNS"
    using scan_patterns_range [of LANGUAGE_PATTERNS code] by (simp add: detectLanguage_def)
  ultimately show ?thesis
    by (simp add: isPlainText_exec_pure detectLanguage_exec_pure)
qed

lemma digits_lines: "length (lines_of (js ''a1\<newline>b2\<newline>c3\<newline>d4'')) = 4"
  by (simp add: ev)

lemma digits_counts: "count_lines (lines_of (js ''a1\<newline>b2\<newline>c3\<newline>d4'')) (0, 0) = (0, 0)"
  by (simp add: ev)

lemma digits_null: "js_match (js ''a1\<newline>b2\<newline>c3\<newline>d4'') structsym_re = None"
  by (simp add: ev)

lemma digits_plain: "detectLanguage (js ''a1\<newline>b2\<newline>c3\<newline>d4'') = PlainText"
  by (simp add: ev_detect)

text \<open>
  The first text reaches the comparison with a \<^verbatim>\<open>null\<close> match, where reading
  \<^verbatim>\<open>.length\<close> without the optional chain would throw; the second is white space only.
\<close>

theorem detectLanguage_total_witness:
  "length (lines_of (js ''a1\<newline>b2\<newline>c3\<newline>d4'')) = 4
   \<and> count_lines (lines_of (js ''a1\<newline>b2\<newline>c3\<newline>d4'')) (0, 0) = (0, 0)
   \<and> get_length (js_match (js ''a1\<newline>b2\<newline>c3\<newline>d4'') structsym_re) = Inl TypeError
   \<and> isPlainText_exec (js ''a1\<newline>b2\<newline>c3\<newline>d4'') = Inr False
   \<and> detectLanguage_exec (js ''a1\<newline>b2\<newline>c3\<newline>d4'') = Inr PlainText
   \<and> list_all is_space [32, 10, 9, 160]
   \<and> detectLanguage_exec [32, 10, 9, 160] = Inr PlainText"
proof -
  have ws: "list_all is_space [32, 10, 9, 160]"
    by (simp add: is_space_def)
  have thrown: "get_length (js_match (js ''a1\<newline>b2\<newline>c3\<newline>d4'') structsym_re) = Inl TypeError"
    by (simp add: digits_null get_length_def)
  have ex: "isPlainText_exec (js ''a1\<newline>b2\<newline>c3\<newline>d4'') = Inr False"
    by (simp add: isPlainText_exec_def digits_lines digits_counts digits_null
        opt_get_length_def lt_number_def)
  have np: "\<not> isPlainText (js ''a1\<newline>b2\<newline>c3\<newline>d4'')"
    using ex by (simp add: isPlainText_exec_pure)
  have "scan_patterns LANGUAGE_PATTERNS (js ''a1\<newline>b2\<newline>c3\<newline>d4'') = PlainText"
    using digits_plain np by (simp add: detectLanguage_def)
  then have "detectLanguage_exec (js ''a1\<newline>b2\<newline>c3\<newline>d4'') = Inr PlainText"
    by (simp add: detectLanguage_exec_def ex)
  with detectLanguage_total [of "[32, 10, 9, 160]"] ws thrown ex digits_lines digits_counts
  show ?thesis by blast
qed

text \<open>
  Claim C10. The result of the classifier is one of eleven fixed descriptors, the Plain
  Text sentinel and the ten descriptors of the registry, with pairwise different names;
  when the name of the result is \<^verbatim>\<open>Plain Text\<close>, its editor mode is \<^verbatim>\<open>plaintext\<close>.
\<close>

theorem descriptor_range:
  "detectLanguage code \<in> set (PlainText # map lang LANGUAGE_PATTERNS)
   \<and> PlainText # map lang LANGUAGE_PATTERNS =
       [\<lparr>name = js ''Plain Text'', monacoId = js ''plaintext'', icon = [55357, 56516],
          color = js ''#6B7280''\<rparr>,
        \<lparr>name = js ''Java'', monacoId = js ''java'', icon = [9749], color = js ''#B07219''\<rparr>,
        \<lparr>name = js ''C++'', monacoId = js ''cpp'', icon = [9889], color = js ''#F34B7D''\<rparr>,
        \<lparr>name = js ''C'', monacoId = js ''c'', icon = [55357, 56615], color = js ''#555555''\<rparr>,
        \<lparr>name = js ''TypeScript'', monacoId = js ''typescript'', icon = [55357, 56536],
          color = js ''#3178C6''\<rparr>,
        \<lparr>name = js ''Go'', monacoId = js ''go'', icon = [55357, 56377], color = js ''#00ADD8''\<rparr>,
        \<lparr>name = js ''Rust'', monacoId = js ''rust'', icon = [55358, 56704],
          color = js ''#DEA584''\<rparr>,
        \<lparr>name = js ''Python'', monacoId = js ''python'', icon = [55357, 56333],
          color = js ''#3572A5''\<rparr>,
        \<lparr>name = js ''JavaScript'', monacoId = js ''javascript'', icon = [55357, 56540],
          color = js ''#F7DF1E''\<rparr>,
        \<lparr>name = js ''Ruby'', monacoId = js ''ruby'', icon = [55357, 56462],
          color = js ''#CC342D''\<rparr>,
        \<lparr>name = js ''PHP'', monacoId = js ''php'', icon = [55357, 56344], color = js ''#4F5D95''\<rparr>]
   \<and> distinct (map name (PlainText # map lang LANGUAGE_PATTERNS))
   \<and> (name (detectLanguage code) = js ''Plain Text'' \<longrightarrow>
        monacoId (detectLanguage code) = js ''plaintext'')"
proof -
  have mem: "detectLanguage code \<in> set (PlainText # map lang LANGUAGE_PATTERNS)"
    using scan_patterns_range [of LANGUAGE_PATTERNS code] by (auto simp: detectLanguage_def)
  have lst: "PlainText # map lang LANGUAGE_PATTERNS =
       [\<lparr>name = js ''Plain Text'', monacoId = js ''plaintext'', icon = [55357, 56516],
          color = js ''#6B7280''\<rparr>,
        \<lparr>name = js ''Java'', monacoId = js ''java'', icon = [9749], color = js ''#B07219''\<rparr>,
        \<lparr>name = js ''C++'', monacoId = js ''cpp'', icon = [9889], color = js ''#F34B7D''\<rparr>,
        \<lparr>name = js ''C'', monacoId = js ''c'', icon = [55357, 56615], color = js ''#555555''\<rparr>,
        \<lparr>name = js ''TypeScript'', monacoId = js ''typescript'', icon = [55357, 56536],
          color = js ''#3178C6''\<rparr>,
        \<lparr>name = js ''Go'', monacoId = js ''go'', icon = [55357, 56377], color = js ''#00ADD8''\<rparr>,
        \<lparr>name = js ''Rust'', monacoId = js ''rust'', icon = [55358, 56704],
          color = js ''#DEA584''\<rparr>,
        \<lparr>name = js ''Python'', monacoId = js ''python'', icon = [55357, 56333],
          color = js ''#3572A5''\<rparr>,
        \<lparr>name = js ''JavaScript'', monacoId = js ''javascript'', icon = [55357, 56540],
          color = js ''#F7DF1E''\<rparr>,
        \<lparr>name = js ''Ruby'', monacoId = js ''ruby'', icon = [55357, 56462],
          color = js ''#CC342D''\<rparr>,
        \<lparr>name = js ''PHP'', monacoId = js ''php'', icon = [55357, 56344], color = js ''#4F5D95''\<rparr>]"
    by (simp add: LANGUAGE_PATTERNS_def PlainText_def)
  have dist: "distinct (map name (PlainText # map lang LANGUAGE_PATTERNS))"
    unfolding lst by (simp add: js_def)
  have "monacoId d = js ''plaintext''"
    if "d \<in> set (PlainText # map lang LANGUAGE_PATTERNS)" and "name d = js ''Plain Text''" for d
    using that unfolding lst by (auto simp: js_def)
  with mem lst dist show ?thesis by blast
qed

lemma assignment_prose: "isPlainText (js ''x = 1'')"
  by (simp add: ev)

theorem descriptor_range_witness:
  "name (detectLanguage (js ''x = 1'')) = js ''Plain Text''
   \<and> monacoId (detectLanguage (js ''x = 1'')) = js ''plaintext''"
proof -
  have "name (detectLanguage (js ''x = 1'')) = js ''Plain Text''"
    using assignment_prose by (simp add: detectLanguage_def PlainText_def)
  with descriptor_range [of "js ''x = 1''"] show ?thesis by blast
qed

end
